theory Spec2Isabelle
  imports Complex_Main
begin

section \<open>The icon generator \<open>create_icons.py\<close>\<close>

text \<open>
  The script draws a padlock glyph with the imaging library (an \<open>Image\<close>, an
  \<open>ImageDraw\<close>) and saves it as PNG at four sizes. The model keeps the script's own
  computation (the geometry, the order and the arguments of the drawing calls, the file
  names, the printed lines) and records each call to the imaging library as data: an image is
  the colour it was created with and the drawing calls made on it since. What the calls do to
  the pixels is given separately, in \<open>paint\<close> and \<open>getpixel\<close>.

  Python's \<open>float\<close> is modelled by \<open>real\<close>: \<open>size / 24\<close> is the exact quotient and
  \<open>cos\<close>, \<open>sin\<close>, \<open>radians\<close> are the mathematical functions. The rounding of IEEE
  doubles is not modelled. (For the products \<open>k * (size / 24)\<close> the script cuts to integers
  it makes no difference at any realistic size: where the exact product is an integer,
  \<open>size / 24\<close> is a multiple of \<open>1/8\<close> and is computed exactly; elsewhere the exact
  product is at least \<open>1/24\<close> away from an integer.)
\<close>

subsection \<open>Python values\<close>

datatype py_error = ValueError | IndexError | FileNotFoundError

text \<open>\<open>int(x)\<close> on a float: rounds towards zero.\<close>

definition py_int :: "real \<Rightarrow> int" where
  "py_int x = (if 0 \<le> x then \<lfloor>x\<rfloor> else \<lceil>x\<rceil>)"

text \<open>\<open>range(start, stop, step)\<close> for a positive step.\<close>

function py_range :: "int \<Rightarrow> int \<Rightarrow> int \<Rightarrow> int list" where
  "py_range start stop step =
     (if 0 < step \<and> start < stop then start # py_range (start + step) stop step else [])"
  by pat_completeness auto
termination
  by (relation "measure (\<lambda>(start, stop, step). nat (stop - start))") auto

declare py_range.simps [simp del]

text \<open>\<open>math.radians\<close>.\<close>

definition radians :: "real \<Rightarrow> real" where
  "radians d = d * pi / 180"

text \<open>\<open>str(n)\<close> of an integer, as the f-strings \<open>f'...{size}...'\<close> format it.\<close>

fun str_nat :: "nat \<Rightarrow> string" where
  "str_nat n = (if n < 10 then [''0123456789'' ! n]
                else str_nat (n div 10) @ [''0123456789'' ! (n mod 10)])"

declare str_nat.simps [simp del]

definition str :: "int \<Rightarrow> string" where
  "str i = (if i < 0 then CHR ''-'' # str_nat (nat (- i)) else str_nat (nat i))"

subsection \<open>The imaging library, as far as the script calls it\<close>

type_synonym colour = "int \<times> int \<times> int \<times> int"

text \<open>
  \<open>Rectangle x0 y0 x1 y1 fill\<close> is \<open>draw.rectangle([x0, y0, x1, y1], fill=fill)\<close> and
  \<open>Line x1 y1 x2 y2 fill width\<close> is \<open>draw.line([x1, y1, x2, y2], fill=fill, width=width)\<close>.
\<close>

datatype draw_call =
  Rectangle int int int int colour
| Line int int int int colour int

record image =
  mode :: string
  im_width :: int
  im_height :: int
  im_color :: colour
  calls :: "draw_call list"

text \<open>\<open>Image.new(mode, (w, h), color)\<close>: a negative dimension raises \<open>ValueError\<close>.\<close>

definition Image_new :: "string \<Rightarrow> int \<times> int \<Rightarrow> colour \<Rightarrow> py_error + image" where
  "Image_new m dims c =
     (if fst dims < 0 \<or> snd dims < 0 then Inl ValueError
      else Inr \<lparr>mode = m, im_width = fst dims, im_height = snd dims, im_color = c, calls = []\<rparr>)"

text \<open>
  \<open>draw.rectangle\<close>: the library raises \<open>ValueError\<close> when \<open>x1 < x0\<close> or \<open>y1 < y0\<close>.
\<close>

definition draw_rectangle ::
  "image \<Rightarrow> int \<times> int \<times> int \<times> int \<Rightarrow> colour \<Rightarrow> py_error + image" where
  "draw_rectangle img box fill =
     (case box of (x0, y0, x1, y1) \<Rightarrow>
        if x1 < x0 \<or> y1 < y0 then Inl ValueError
        else Inr (img\<lparr>calls := calls img @ [Rectangle x0 y0 x1 y1 fill]\<rparr>))"

text \<open>\<open>draw.line\<close> accepts every pair of integer end points.\<close>

definition draw_line ::
  "image \<Rightarrow> int \<times> int \<times> int \<times> int \<Rightarrow> colour \<Rightarrow> int \<Rightarrow> image" where
  "draw_line img xy fill width =
     (case xy of (x1, y1, x2, y2) \<Rightarrow> img\<lparr>calls := calls img @ [Line x1 y1 x2 y2 fill width]\<rparr>)"

text \<open>
  The pixels. A rectangle fills the box with both corners included. Which pixels a stroked
  line covers is decided inside the library's rasteriser, so it is a parameter \<open>L\<close>:
  \<open>L (x1, y1, x2, y2) width (x, y)\<close> holds when the line covers pixel \<open>(x, y)\<close>. A covered
  pixel takes the fill colour (the script's fills are opaque and nothing is blended).
\<close>

type_synonym coverage = "int \<times> int \<times> int \<times> int \<Rightarrow> int \<Rightarrow> int \<times> int \<Rightarrow> bool"

fun covers :: "coverage \<Rightarrow> draw_call \<Rightarrow> int \<times> int \<Rightarrow> bool" where
  "covers L (Rectangle x0 y0 x1 y1 fill) p =
     (x0 \<le> fst p \<and> fst p \<le> x1 \<and> y0 \<le> snd p \<and> snd p \<le> y1)"
| "covers L (Line x1 y1 x2 y2 fill width) p = L (x1, y1, x2, y2) width p"

fun ink :: "draw_call \<Rightarrow> colour" where
  "ink (Rectangle x0 y0 x1 y1 fill) = fill"
| "ink (Line x1 y1 x2 y2 fill width) = fill"

definition paint :: "coverage \<Rightarrow> draw_call \<Rightarrow> (int \<times> int \<Rightarrow> colour) \<Rightarrow> int \<times> int \<Rightarrow> colour" where
  "paint L c px = (\<lambda>p. if covers L c p then ink c else px p)"

text \<open>\<open>img.getpixel((x, y))\<close>: \<open>IndexError\<close> outside the image.\<close>

definition getpixel :: "coverage \<Rightarrow> image \<Rightarrow> int \<times> int \<Rightarrow> py_error + colour" where
  "getpixel L img p =
     (if 0 \<le> fst p \<and> fst p < im_width img \<and> 0 \<le> snd p \<and> snd p < im_height img
      then Inr (fold (paint L) (calls img) (\<lambda>_. im_color img) p)
      else Inl IndexError)"

text \<open>
  The library's rasteriser keeps a stroke of width \<open>w \<ge> 0\<close> inside the bounding box of
  its end points, enlarged by \<open>w\<close> on every side.
\<close>

definition within_stroke_box :: "coverage \<Rightarrow> bool" where
  "within_stroke_box L =
     (\<forall>x1 y1 x2 y2 w x y. 0 \<le> w \<and> L (x1, y1, x2, y2) w (x, y) \<longrightarrow>
        min x1 x2 - w \<le> x \<and> x \<le> max x1 x2 + w \<and> min y1 y2 - w \<le> y \<and> y \<le> max y1 y2 + w)"

text \<open>One rasteriser of that kind: the bounding box of the end points itself.\<close>

definition bbox_coverage :: coverage where
  "bbox_coverage xy w p =
     (case xy of (x1, y1, x2, y2) \<Rightarrow>
        min x1 x2 \<le> fst p \<and> fst p \<le> max x1 x2 \<and> min y1 y2 \<le> snd p \<and> snd p \<le> max y1 y2)"

subsection \<open>Files and standard output\<close>

text \<open>
  What a run does to the outside: a file saved (path, format, image) or a line printed. The
  world is the set of directories that exist and the events so far, oldest first.
\<close>

datatype event =
  Saved string string image
| Printed string

record world =
  dirs :: "string set"
  events :: "event list"

fun saved :: "event \<Rightarrow> (string \<times> string \<times> image) list" where
  "saved (Saved path format img) = [(path, format, img)]"
| "saved (Printed line) = []"

fun printed :: "event \<Rightarrow> string list" where
  "printed (Saved path format img) = []"
| "printed (Printed line) = [line]"

text \<open>The files written and the lines on standard output, in order.\<close>

definition written :: "world \<Rightarrow> (string \<times> string \<times> image) list" where
  "written w = concat (map saved (events w))"

definition stdout :: "world \<Rightarrow> string list" where
  "stdout w = concat (map printed (events w))"

text \<open>
  \<open>os.path.dirname\<close>, for a relative path without doubled slashes: the path up to its
  last slash.
\<close>

fun dirname :: "string \<Rightarrow> string" where
  "dirname [] = []"
| "dirname (c # cs) = (if CHR ''/'' \<in> set cs then c # dirname cs else [])"

text \<open>\<open>os.makedirs(path, exist_ok=True)\<close>: the directory exists afterwards.\<close>

definition makedirs :: "string \<Rightarrow> world \<Rightarrow> world" where
  "makedirs path w = w\<lparr>dirs := insert path (dirs w)\<rparr>"

text \<open>
  \<open>img.save(filename, format)\<close> needs the directory of the file to exist. Failures of the
  encoder or of the disk are not modelled.
\<close>

definition save :: "image \<Rightarrow> string \<Rightarrow> string \<Rightarrow> world \<Rightarrow> py_error + world" where
  "save img filename format w =
     (if dirname filename = [] \<or> dirname filename \<in> dirs w
      then Inr (w\<lparr>events := events w @ [Saved filename format img]\<rparr>)
      else Inl FileNotFoundError)"

definition print :: "string \<Rightarrow> world \<Rightarrow> world" where
  "print line w = w\<lparr>events := events w @ [Printed line]\<rparr>"

subsection \<open>\<open>create_icon\<close>\<close>

text \<open>The local variables of \<open>create_icon\<close>, each as a function of \<open>size\<close> (written \<open>sz\<close>).\<close>

definition scale :: "int \<Rightarrow> real" where
  "scale sz = real_of_int sz / 24"

definition lock_width :: "int \<Rightarrow> int" where
  "lock_width sz = py_int (10 * scale sz)"

definition lock_height :: "int \<Rightarrow> int" where
  "lock_height sz = py_int (8 * scale sz)"

definition lock_x :: "int \<Rightarrow> int" where
  "lock_x sz = (sz - lock_width sz) div 2"

definition lock_y :: "int \<Rightarrow> int" where
  "lock_y sz = sz div 2"

definition shackle_center_x :: "int \<Rightarrow> int" where
  "shackle_center_x sz = sz div 2"

definition shackle_center_y :: "int \<Rightarrow> int" where
  "shackle_center_y sz = lock_y sz - py_int (2 * scale sz)"

definition shackle_radius :: "int \<Rightarrow> int" where
  "shackle_radius sz = py_int (4 * scale sz)"

text \<open>The body of the loop \<open>for angle in range(180, 361, 10)\<close>.\<close>

definition shackle_step :: "int \<Rightarrow> int \<Rightarrow> image \<Rightarrow> image" where
  "shackle_step sz angle img =
     (let x1 = shackle_center_x sz
                 + py_int (real_of_int (shackle_radius sz) * cos (radians (real_of_int angle)));
          y1 = shackle_center_y sz
                 + py_int (real_of_int (shackle_radius sz) * sin (radians (real_of_int angle)));
          x2 = shackle_center_x sz
                 + py_int (real_of_int (shackle_radius sz - 2) * cos (radians (real_of_int angle)));
          y2 = shackle_center_y sz
                 + py_int (real_of_int (shackle_radius sz - 2) * sin (radians (real_of_int angle)))
      in draw_line img (x1, y1, x2, y2) (255, 255, 255, 255) (max 1 (py_int (scale sz))))"

text \<open>Lines 6 to 33: the image before it is saved.\<close>

definition create_icon_image :: "int \<Rightarrow> py_error + image" where
  "create_icon_image sz =
     (case Image_new ''RGBA'' (sz, sz) (59, 130, 246, 255) of
        Inl e \<Rightarrow> Inl e
      | Inr img \<Rightarrow>
          (case draw_rectangle img
                  (lock_x sz, lock_y sz,
                   lock_x sz + lock_width sz, lock_y sz + lock_height sz)
                  (255, 255, 255, 255) of
             Inl e \<Rightarrow> Inl e
           | Inr img' \<Rightarrow> Inr (fold (shackle_step sz) (py_range 180 361 10) img')))"

definition create_icon :: "int \<Rightarrow> string \<Rightarrow> world \<Rightarrow> py_error + world" where
  "create_icon sz filename w =
     (case create_icon_image sz of
        Inl e \<Rightarrow> Inl e
      | Inr img \<Rightarrow> save img filename ''PNG'' w)"

subsection \<open>The script body\<close>

definition sizes :: "int list" where
  "sizes = [16, 32, 48, 128]"

text \<open>The loop \<open>for size in sizes\<close>; an exception ends the run.\<close>

fun create_all :: "int list \<Rightarrow> world \<Rightarrow> py_error + world" where
  "create_all [] w = Inr w"
| "create_all (sz # rest) w =
     (case create_icon sz (''extension/icons/icon'' @ str sz @ ''.png'') w of
        Inl e \<Rightarrow> Inl e
      | Inr w' \<Rightarrow> create_all rest (print (''Created icon'' @ str sz @ ''.png'') w'))"

definition main :: "world \<Rightarrow> py_error + world" where
  "main w =
     (case create_all sizes (makedirs ''extension/icons'' w) of
        Inl e \<Rightarrow> Inl e
      | Inr w' \<Rightarrow> Inr (print ''All icons created successfully!'' w'))"

subsection \<open>Reference definitions\<close>

text \<open>
  The definitions from here on are not translations of the script: they name what the
  properties below are stated with.
\<close>

text \<open>The state a run starts in: nothing saved or printed yet, any directories.\<close>

definition start :: "string set \<Rightarrow> world" where
  "start ds = \<lparr>dirs = ds, events = []\<rparr>"

text \<open>The pixel of the icon of a given size, as \<open>getpixel\<close> would read it before the save.\<close>

definition icon_pixel :: "coverage \<Rightarrow> int \<Rightarrow> int \<times> int \<Rightarrow> py_error + colour" where
  "icon_pixel L sz p =
     (case create_icon_image sz of Inl e \<Rightarrow> Inl e | Inr img \<Rightarrow> getpixel L img p)"

definition background :: colour where
  "background = (59, 130, 246, 255)"

definition white :: colour where
  "white = (255, 255, 255, 255)"

text \<open>
  The segment of the shackle at one angle, as the specification words it: from the point at
  distance \<open>r\<close> to the point at distance \<open>r - 2\<close> from the centre \<open>c\<close>, each offset
  cut to an integer by \<open>int\<close>, in opaque white with stroke width \<open>w\<close>.
\<close>

definition segment :: "int \<times> int \<Rightarrow> int \<Rightarrow> int \<Rightarrow> int \<Rightarrow> draw_call" where
  "segment c r w angle =
     Line (fst c + py_int (real_of_int r * cos (radians (real_of_int angle))))
          (snd c + py_int (real_of_int r * sin (radians (real_of_int angle))))
          (fst c + py_int (real_of_int (r - 2) * cos (radians (real_of_int angle))))
          (snd c + py_int (real_of_int (r - 2) * sin (radians (real_of_int angle))))
          (255, 255, 255, 255) w"

text \<open>The drawing calls of one icon, in the order the script makes them.\<close>

definition the_calls :: "int \<Rightarrow> draw_call list" where
  "the_calls sz =
     Rectangle (lock_x sz) (lock_y sz) (lock_x sz + lock_width sz) (lock_y sz + lock_height sz)
       (255, 255, 255, 255)
     # map (segment (shackle_center_x sz, shackle_center_y sz) (shackle_radius sz)
              (max 1 (py_int (scale sz))))
         [180, 190, 200, 210, 220, 230, 240, 250, 260, 270, 280, 290, 300, 310, 320, 330, 340, 350, 360]"

text \<open>The image of one icon: an RGBA canvas of the size, in the background colour, drawn on.\<close>

definition the_icon :: "int \<Rightarrow> image" where
  "the_icon sz =
     \<lparr>mode = ''RGBA'', im_width = sz, im_height = sz, im_color = (59, 130, 246, 255),
      calls = the_calls sz\<rparr>"

text \<open>
  The same segment with every offset rounded down (\<open>floor\<close>) instead of cut towards
  zero.
\<close>

definition segment_floor :: "int \<times> int \<Rightarrow> int \<Rightarrow> int \<Rightarrow> int \<Rightarrow> draw_call" where
  "segment_floor c r w angle =
     Line (fst c + \<lfloor>real_of_int r * cos (radians (real_of_int angle))\<rfloor>)
          (snd c + \<lfloor>real_of_int r * sin (radians (real_of_int angle))\<rfloor>)
          (fst c + \<lfloor>real_of_int (r - 2) * cos (radians (real_of_int angle))\<rfloor>)
          (snd c + \<lfloor>real_of_int (r - 2) * sin (radians (real_of_int angle))\<rfloor>)
          (255, 255, 255, 255) w"

text \<open>The \<open>n\<close>-th drawing call made for the icon of a size, counting from 0.\<close>

definition call_at :: "int \<Rightarrow> nat \<Rightarrow> py_error + draw_call" where
  "call_at sz n =
     (case create_icon_image sz of
        Inl e \<Rightarrow> Inl e
      | Inr img \<Rightarrow> if n < length (calls img) then Inr (calls img ! n) else Inl IndexError)"

section \<open>Properties\<close>

subsection \<open>Evaluation lemmas\<close>

lemma py_int_of_int [simp]: "py_int (real_of_int k) = k"
  by (simp add: py_int_def)

lemma py_int_nonneg: "0 \<le> x \<Longrightarrow> py_int x = \<lfloor>x\<rfloor>"
  by (simp add: py_int_def)

lemma angles: "py_range 180 361 10 =
  [180, 190, 200, 210, 220, 230, 240, 250, 260, 270, 280, 290, 300, 310, 320, 330, 340, 350, 360]"
  by (simp add: py_range.simps)

lemma py_int_scale:
  assumes "0 \<le> k" and "0 \<le> sz"
  shows "py_int (real_of_int k * scale sz) = (k * sz) div 24"
proof -
  have eq: "real_of_int k * scale sz = real_of_int (k * sz) / real_of_int 24"
    by (simp add: scale_def)
  have "0 \<le> real_of_int k * scale sz"
    using assms by (simp add: scale_def)
  then have "py_int (real_of_int k * scale sz) = \<lfloor>real_of_int (k * sz) / real_of_int 24\<rfloor>"
    unfolding eq by (rule py_int_nonneg)
  also have "\<dots> = (k * sz) div 24"
    by (rule floor_divide_of_int_eq)
  finally show ?thesis .
qed

lemma lock_width_eq: "0 \<le> sz \<Longrightarrow> lock_width sz = (10 * sz) div 24"
  using py_int_scale [of 10 sz] by (simp add: lock_width_def)

lemma lock_height_eq: "0 \<le> sz \<Longrightarrow> lock_height sz = (8 * sz) div 24"
  using py_int_scale [of 8 sz] by (simp add: lock_height_def)

lemma shackle_radius_eq: "0 \<le> sz \<Longrightarrow> shackle_radius sz = (4 * sz) div 24"
  using py_int_scale [of 4 sz] by (simp add: shackle_radius_def)

lemma shackle_center_y_eq: "0 \<le> sz \<Longrightarrow> shackle_center_y sz = sz div 2 - (2 * sz) div 24"
  using py_int_scale [of 2 sz] by (simp add: shackle_center_y_def lock_y_def)

lemma stroke_width_eq: "0 \<le> sz \<Longrightarrow> py_int (scale sz) = sz div 24"
  using py_int_scale [of 1 sz] by simp

subsection \<open>The drawing calls of \<open>create_icon\<close>\<close>

lemma shackle_step_eq:
  "shackle_step sz a img =
     img\<lparr>calls := calls img @
       [segment (shackle_center_x sz, shackle_center_y sz) (shackle_radius sz)
          (max 1 (py_int (scale sz))) a]\<rparr>"
  by (simp add: shackle_step_def draw_line_def segment_def Let_def)

lemma fold_shackle_step:
  "fold (shackle_step sz) as img =
     img\<lparr>calls := calls img @
       map (segment (shackle_center_x sz, shackle_center_y sz) (shackle_radius sz)
              (max 1 (py_int (scale sz)))) as\<rparr>"
  by (induction as arbitrary: img) (simp_all add: shackle_step_eq)

lemma create_icon_image_eq:
  assumes "0 \<le> sz"
  shows "create_icon_image sz =
     Inr \<lparr>mode = ''RGBA'', im_width = sz, im_height = sz, im_color = (59, 130, 246, 255),
          calls = the_calls sz\<rparr>"
proof -
  have w: "0 \<le> lock_width sz" and h: "0 \<le> lock_height sz"
    using assms by (simp_all add: lock_width_eq lock_height_eq)
  show ?thesis
    unfolding create_icon_image_def fold_shackle_step angles
    using assms w h
    by (simp add: Image_new_def draw_rectangle_def the_calls_def)
qed


lemma body_inside:
  assumes "0 < sz"
  shows "0 \<le> lock_x sz" "lock_x sz + lock_width sz \<le> sz - 1"
        "0 \<le> lock_y sz" "lock_y sz + lock_height sz \<le> sz - 1"
        "0 \<le> lock_width sz" "0 \<le> lock_height sz"
proof -
  define w where "w = (10 * sz) div 24"
  define h where "h = (8 * sz) div 24"
  have w: "lock_width sz = w" and h: "lock_height sz = h"
    using assms by (simp_all add: lock_width_eq lock_height_eq w_def h_def)
  have wl: "24 * w \<le> 10 * sz" and wu: "10 * sz < 24 * w + 24"
    unfolding w_def by simp_all
  have hl: "24 * h \<le> 8 * sz" and hu: "8 * sz < 24 * h + 24"
    unfolding h_def by simp_all
  have xl: "2 * lock_x sz \<le> sz - w" and xu: "sz - w < 2 * lock_x sz + 2"
    unfolding lock_x_def w by simp_all
  have yl: "2 * lock_y sz \<le> sz" and yu: "sz < 2 * lock_y sz + 2"
    unfolding lock_y_def by simp_all
  show "0 \<le> lock_x sz" using assms wl xu by linarith
  show "lock_x sz + lock_width sz \<le> sz - 1" unfolding w using assms wl xl by linarith
  show "0 \<le> lock_y sz" using assms yu by linarith
  show "lock_y sz + lock_height sz \<le> sz - 1" unfolding h using assms hl yl by linarith
  show "0 \<le> lock_width sz" unfolding w using assms wu by linarith
  show "0 \<le> lock_height sz" unfolding h using assms hu by linarith
qed

subsection \<open>Painting\<close>

lemma fold_paint_untouched:
  "\<forall>c \<in> set cs. \<not> covers L c p \<Longrightarrow> fold (paint L) cs px p = px p"
  by (induction cs arbitrary: px) (simp_all add: paint_def)

lemma fold_paint_ink:
  "\<forall>c \<in> set cs. ink c = col \<Longrightarrow> fold (paint L) cs px p = col \<or> fold (paint L) cs px p = px p"
proof (induction cs arbitrary: px)
  case Nil
  then show ?case by simp
next
  case (Cons c cs)
  then have "fold (paint L) cs (paint L c px) p = col \<or>
             fold (paint L) cs (paint L c px) p = paint L c px p"
    by simp
  moreover have "paint L c px p = col \<or> paint L c px p = px p"
    using Cons.prems by (simp add: paint_def)
  ultimately show ?case by auto
qed

lemma fold_paint_keeps:
  "\<forall>c \<in> set cs. ink c = col \<Longrightarrow> px p = col \<Longrightarrow> fold (paint L) cs px p = col"
  using fold_paint_ink [of cs col L px p] by auto

lemma icon_pixel_eq:
  assumes "0 \<le> sz" "0 \<le> fst p" "fst p < sz" "0 \<le> snd p" "snd p < sz"
  shows "icon_pixel L sz p = Inr (fold (paint L) (the_calls sz) (\<lambda>_. (59, 130, 246, 255)) p)"
  using assms by (simp add: icon_pixel_def create_icon_image_eq getpixel_def)

lemma ink_the_calls: "\<forall>c \<in> set (the_calls sz). ink c = (255, 255, 255, 255)"
  by (simp add: the_calls_def segment_def)

subsection \<open>The claims\<close>

text \<open>
  C10. For every positive size the lock body rectangle lies inside the canvas:
  \<open>0 \<le> lock_x\<close>, \<open>lock_x + width \<le> size - 1\<close> and \<open>lock_y + height \<le> size - 1\<close>,
  with \<open>width \<le> 10 * size / 24\<close> and \<open>height \<le> 8 * size / 24\<close>.
\<close>

theorem lock_body_inside_canvas:
  "0 < sz \<Longrightarrow>
     0 \<le> lock_x sz \<and> lock_x sz + lock_width sz \<le> sz - 1 \<and>
     lock_y sz + lock_height sz \<le> sz - 1 \<and>
     real_of_int (lock_width sz) \<le> 10 * real_of_int sz / 24 \<and>
     real_of_int (lock_height sz) \<le> 8 * real_of_int sz / 24"
proof -
  assume pos: "0 < sz"
  have "24 * ((10 * sz) div 24) \<le> 10 * sz" by simp
  then have w: "real_of_int (lock_width sz) \<le> 10 * real_of_int sz / 24"
    using pos by (simp add: lock_width_eq)
  have "24 * ((8 * sz) div 24) \<le> 8 * sz" by simp
  then have h: "real_of_int (lock_height sz) \<le> 8 * real_of_int sz / 24"
    using pos by (simp add: lock_height_eq)
  show ?thesis
    using body_inside [OF pos] w h by simp
qed

theorem lock_body_inside_canvas_witness:
  "(0::int) < 24 \<and> 0 \<le> lock_x 24 \<and> lock_x 24 + lock_width 24 \<le> 23 \<and>
   lock_y 24 + lock_height 24 \<le> 23"
  using lock_body_inside_canvas [of 24] by simp

lemma rect_pixel_white:
  assumes pos: "0 < sz"
    and x: "lock_x sz \<le> fst p" "fst p \<le> lock_x sz + lock_width sz"
    and y: "lock_y sz \<le> snd p" "snd p \<le> lock_y sz + lock_height sz"
  shows "icon_pixel L sz p = Inr (255, 255, 255, 255)"
proof -
  note b = body_inside [OF pos]
  have inside: "0 \<le> fst p" "fst p < sz" "0 \<le> snd p" "snd p < sz"
    using b x y by linarith+
  let ?r = "Rectangle (lock_x sz) (lock_y sz) (lock_x sz + lock_width sz)
              (lock_y sz + lock_height sz) (255, 255, 255, 255)"
  have "paint L ?r (\<lambda>_. (59, 130, 246, 255)) p = (255, 255, 255, 255)"
    using x y by (simp add: paint_def)
  moreover have "\<forall>c \<in> set (tl (the_calls sz)). ink c = (255, 255, 255, 255)"
    by (simp add: the_calls_def segment_def)
  ultimately have
    "fold (paint L) (tl (the_calls sz)) (paint L ?r (\<lambda>_. (59, 130, 246, 255))) p
       = (255, 255, 255, 255)"
    by (rule fold_paint_keeps [rotated])
  moreover have "the_calls sz = ?r # tl (the_calls sz)"
    by (simp add: the_calls_def)
  ultimately have "fold (paint L) (the_calls sz) (\<lambda>_. (59, 130, 246, 255)) p = (255, 255, 255, 255)"
    by (metis fold_simps(2))
  then show ?thesis
    using pos inside by (simp add: icon_pixel_eq)
qed

text \<open>
  C2. For every positive size: \<open>scale = size / 24\<close> as an exact ratio, the body width is
  \<open>floor (10 * scale)\<close>, the body height \<open>floor (8 * scale)\<close>,
  \<open>lock_x = (size - width) div 2\<close>, \<open>lock_y = size div 2\<close>, the first drawing call is the
  rectangle from \<open>(lock_x, lock_y)\<close> to \<open>(lock_x + width, lock_y + height)\<close> in opaque
  white, and every pixel of that rectangle is opaque white in the icon.
\<close>

theorem geometry_parameters:
  "0 < sz \<Longrightarrow>
     scale sz = real_of_int sz / 24 \<and>
     lock_width sz = \<lfloor>10 * scale sz\<rfloor> \<and>
     lock_height sz = \<lfloor>8 * scale sz\<rfloor> \<and>
     lock_x sz = (sz - lock_width sz) div 2 \<and>
     lock_y sz = sz div 2 \<and>
     (\<exists>img. create_icon_image sz = Inr img \<and>
        hd (calls img) =
          Rectangle (lock_x sz) (lock_y sz) (lock_x sz + lock_width sz)
            (lock_y sz + lock_height sz) (255, 255, 255, 255)) \<and>
     (\<forall>x y. lock_x sz \<le> x \<and> x \<le> lock_x sz + lock_width sz \<and>
            lock_y sz \<le> y \<and> y \<le> lock_y sz + lock_height sz \<longrightarrow>
            icon_pixel L sz (x, y) = Inr (255, 255, 255, 255))"
proof -
  assume pos: "0 < sz"
  then have nn: "0 \<le> 10 * scale sz" "0 \<le> 8 * scale sz"
    by (simp_all add: scale_def)
  have img: "\<exists>img. create_icon_image sz = Inr img \<and>
        hd (calls img) =
          Rectangle (lock_x sz) (lock_y sz) (lock_x sz + lock_width sz)
            (lock_y sz + lock_height sz) (255, 255, 255, 255)"
    using pos by (simp add: create_icon_image_eq the_calls_def)
  have px: "\<forall>x y. lock_x sz \<le> x \<and> x \<le> lock_x sz + lock_width sz \<and>
            lock_y sz \<le> y \<and> y \<le> lock_y sz + lock_height sz \<longrightarrow>
            icon_pixel L sz (x, y) = Inr (255, 255, 255, 255)"
    using rect_pixel_white [OF pos] by simp
  show ?thesis
    using nn img px
    by (simp add: scale_def lock_width_def lock_height_def lock_x_def lock_y_def py_int_nonneg)
qed

theorem geometry_parameters_witness:
  "(0::int) < 24 \<and> lock_width 24 = \<lfloor>10 * scale 24\<rfloor> \<and> lock_x 24 = (24 - lock_width 24) div 2 \<and>
   icon_pixel bbox_coverage 24 (7, 12) = Inr (255, 255, 255, 255)"
  using geometry_parameters [of 24 bbox_coverage]
  by (simp add: lock_x_def lock_y_def lock_width_eq lock_height_eq)

text \<open>
  C5. At size 24 the scale is 1, the lock body has width 10, height 8 and origin \<open>(7, 12)\<close>,
  and the pixel \<open>(10, 15)\<close> of the icon is opaque white.
\<close>

theorem size_24_lock_body:
  "scale 24 = 1 \<and> lock_width 24 = 10 \<and> lock_height 24 = 8 \<and> lock_x 24 = 7 \<and> lock_y 24 = 12 \<and>
   icon_pixel L 24 (10, 15) = Inr (255, 255, 255, 255)"
proof -
  have g: "lock_width 24 = 10" "lock_height 24 = 8" "lock_x 24 = 7" "lock_y 24 = 12"
    by (simp_all add: lock_x_def lock_y_def lock_width_eq lock_height_eq)
  have "icon_pixel L 24 (10, 15) = Inr (255, 255, 255, 255)"
    by (rule rect_pixel_white) (simp_all add: g)
  then show ?thesis
    using g by (simp add: scale_def)
qed

text \<open>
  C9. For every positive size, every pixel of the canvas is either the background blue
  \<open>(59, 130, 246, 255)\<close> or opaque white \<open>(255, 255, 255, 255)\<close>.
\<close>

theorem two_colours_only:
  "0 < sz \<Longrightarrow> 0 \<le> x \<Longrightarrow> x < sz \<Longrightarrow> 0 \<le> y \<Longrightarrow> y < sz \<Longrightarrow>
     icon_pixel L sz (x, y) = Inr background \<or> icon_pixel L sz (x, y) = Inr white"
proof -
  assume a: "0 < sz" "0 \<le> x" "x < sz" "0 \<le> y" "y < sz"
  have "fold (paint L) (the_calls sz) (\<lambda>_. background) (x, y) = white \<or>
        fold (paint L) (the_calls sz) (\<lambda>_. background) (x, y) = (\<lambda>_. background) (x, y)"
    by (rule fold_paint_ink) (simp add: ink_the_calls white_def)
  then show ?thesis
    using a by (auto simp: icon_pixel_eq background_def)
qed

theorem two_colours_only_witness:
  "(0::int) < 16 \<and>
   (icon_pixel bbox_coverage 16 (3, 9) = Inr background \<or>
    icon_pixel bbox_coverage 16 (3, 9) = Inr white)"
  using two_colours_only [of 16 3 9 bbox_coverage] by simp

lemma radians_210: "radians 210 = pi + pi / 6"
  by (simp add: radians_def)

lemma cos_210: "cos (radians 210) = - (sqrt 3 / 2)"
proof -
  have "cos (pi + pi / 6) = cos pi * cos (pi / 6) - sin pi * sin (pi / 6)"
    by (rule cos_add)
  then show ?thesis
    unfolding radians_210 by (simp add: cos_30)
qed

lemma sin_210: "sin (radians 210) = - (1 / 2)"
proof -
  have "sin (pi + pi / 6) = sin pi * cos (pi / 6) + cos pi * sin (pi / 6)"
    by (rule sin_add)
  then show ?thesis
    unfolding radians_210 by (simp add: sin_30)
qed

lemma sqrt3_bounds: "8 / 5 < sqrt 3" "sqrt 3 < 2"
proof -
  show "8 / 5 < sqrt 3" by (rule real_less_rsqrt) (simp add: power2_eq_square)
  show "sqrt 3 < 2" by (rule real_less_lsqrt) (simp_all add: power2_eq_square)
qed

lemma trunc_at_210:
  "py_int (5 * cos (radians 210)) = - 4" "py_int (3 * cos (radians 210)) = - 2"
  "py_int (5 * sin (radians 210)) = - 2" "py_int (3 * sin (radians 210)) = - 1"
  using sqrt3_bounds
  by (simp_all add: py_int_def cos_210 sin_210 ceiling_eq_iff)

lemma floor_at_210:
  "\<lfloor>5 * cos (radians 210)\<rfloor> = - 5" "\<lfloor>3 * cos (radians 210)\<rfloor> = - 3"
  "\<lfloor>5 * sin (radians 210)\<rfloor> = - 3" "\<lfloor>3 * sin (radians 210)\<rfloor> = - 2"
  using sqrt3_bounds
  by (simp_all add: cos_210 sin_210 floor_eq_iff)

text \<open>
  C1, as the code has it. For every positive size the shackle is drawn as exactly 19 white
  line segments, one for each angle 180, 190, ..., 360; the segment at an angle runs from the
  centre plus \<open>(int (radius * cos angle), int (radius * sin angle))\<close> to the same with
  \<open>radius - 2\<close>, where \<open>int\<close> cuts towards zero; the centre is
  \<open>(size div 2, lock_y - floor (2 * scale))\<close>, the radius \<open>floor (4 * scale)\<close> and the stroke
  width \<open>max 1 (floor scale)\<close>.
\<close>

theorem shackle_segments:
  "0 < sz \<Longrightarrow>
     (\<exists>img. create_icon_image sz = Inr img \<and>
        tl (calls img) =
          map (segment (sz div 2, lock_y sz - \<lfloor>2 * scale sz\<rfloor>) \<lfloor>4 * scale sz\<rfloor>
                 (max 1 \<lfloor>scale sz\<rfloor>))
            [180, 190, 200, 210, 220, 230, 240, 250, 260, 270,
             280, 290, 300, 310, 320, 330, 340, 350, 360] \<and>
        length (tl (calls img)) = 19)"
proof -
  assume pos: "0 < sz"
  then have nn: "0 \<le> 2 * scale sz" "0 \<le> 4 * scale sz" "0 \<le> scale sz"
    by (simp_all add: scale_def)
  have c: "shackle_center_x sz = sz div 2"
    "shackle_center_y sz = lock_y sz - \<lfloor>2 * scale sz\<rfloor>"
    "shackle_radius sz = \<lfloor>4 * scale sz\<rfloor>"
    "py_int (scale sz) = \<lfloor>scale sz\<rfloor>"
    using nn by (simp_all add: shackle_center_x_def shackle_center_y_def shackle_radius_def
        py_int_nonneg)
  show ?thesis
    using pos by (simp add: create_icon_image_eq the_calls_def c)
qed

theorem shackle_segments_witness:
  "(0::int) < 24 \<and>
   (\<exists>img. create_icon_image 24 = Inr img \<and> length (tl (calls img)) = 19)"
  using shackle_segments [of 24] by auto

text \<open>
  C1 as stated reads the offsets as floors. At size 32 the segment at 210 degrees (the
  fifth drawing call) has radius 5 and centre \<open>(16, 14)\<close>; the script draws it from
  \<open>(12, 12)\<close> to \<open>(14, 13)\<close>, the floor formula gives \<open>(11, 11)\<close> to \<open>(13, 12)\<close>.
\<close>

theorem shackle_floor_counterexample:
  "shackle_center_x 32 = 16 \<and> shackle_center_y 32 = 14 \<and> shackle_radius 32 = 5 \<and>
   call_at 32 4 = Inr (Line 12 12 14 13 (255, 255, 255, 255) 1) \<and>
   segment_floor (16, 14) 5 1 210 = Line 11 11 13 12 (255, 255, 255, 255) 1 \<and>
   call_at 32 4 \<noteq> Inr (segment_floor (16, 14) 5 1 210)"
proof -
  have c: "shackle_center_x 32 = 16" "shackle_center_y 32 = 14" "shackle_radius 32 = 5"
    "py_int (scale 32) = 1"
    by (simp_all add: shackle_center_x_def shackle_center_y_eq shackle_radius_eq stroke_width_eq)
  have "call_at 32 4 = Inr (segment (16, 14) 5 1 210)"
    by (simp add: call_at_def create_icon_image_eq the_calls_def c)
  moreover have "segment (16, 14) 5 1 210 = Line 12 12 14 13 (255, 255, 255, 255) 1"
    by (simp add: segment_def trunc_at_210)
  moreover have "segment_floor (16, 14) 5 1 210 = Line 11 11 13 12 (255, 255, 255, 255) 1"
    by (simp add: segment_floor_def floor_at_210)
  ultimately show ?thesis
    using c by simp
qed

lemma py_int_mult_bound:
  assumes "\<bar>c\<bar> \<le> 1"
  shows "\<bar>py_int (real_of_int r * c)\<bar> \<le> \<bar>r\<bar>"
proof -
  have "\<bar>real_of_int r * c\<bar> \<le> \<bar>real_of_int r\<bar> * 1"
    unfolding abs_mult using assms by (intro mult_left_mono) simp_all
  then have b: "real_of_int r * c \<le> real_of_int \<bar>r\<bar>" "- real_of_int \<bar>r\<bar> \<le> real_of_int r * c"
    by simp_all
  show ?thesis
  proof (cases "0 \<le> real_of_int r * c")
    case True
    then have "py_int (real_of_int r * c) = \<lfloor>real_of_int r * c\<rfloor>"
      by (rule py_int_nonneg)
    moreover have "0 \<le> \<lfloor>real_of_int r * c\<rfloor>" using True by simp
    moreover have "\<lfloor>real_of_int r * c\<rfloor> \<le> \<bar>r\<bar>" using b(1) by (simp add: floor_le_iff)
    ultimately show ?thesis by simp
  next
    case False
    then have "py_int (real_of_int r * c) = \<lceil>real_of_int r * c\<rceil>"
      by (simp add: py_int_def)
    moreover have "\<lceil>real_of_int r * c\<rceil> \<le> 0" using False by (simp add: ceiling_le_iff)
    moreover have "- \<bar>r\<bar> \<le> \<lceil>real_of_int r * c\<rceil>" using b(2) by (simp add: le_ceiling_iff)
    ultimately show ?thesis by simp
  qed
qed

lemma segment_reach:
  assumes L: "within_stroke_box L"
    and cov: "covers L (segment (cx, cy) r w a) (x, y)"
    and r: "\<bar>r\<bar> \<le> R" "\<bar>r - 2\<bar> \<le> R"
    and w: "0 \<le> w"
  shows "cx - R - w \<le> x \<and> x \<le> cx + R + w"
proof -
  let ?c = "cos (radians (real_of_int a))"
  let ?x1 = "cx + py_int (real_of_int r * ?c)"
  let ?x2 = "cx + py_int (real_of_int (r - 2) * ?c)"
  have c: "\<bar>?c\<bar> \<le> 1" by (rule abs_cos_le_one)
  have b1: "\<bar>py_int (real_of_int r * ?c)\<bar> \<le> R"
    using py_int_mult_bound [OF c, of r] r(1) by linarith
  have b2: "\<bar>py_int (real_of_int (r - 2) * ?c)\<bar> \<le> R"
    using py_int_mult_bound [OF c, of "r - 2"] r(2) by linarith
  have "min ?x1 ?x2 - w \<le> x \<and> x \<le> max ?x1 ?x2 + w"
    using L cov w unfolding within_stroke_box_def segment_def by (simp del: of_int_diff)
  then show ?thesis
    using b1 b2 by linarith
qed

lemma untouched_pixel:
  assumes L: "within_stroke_box L"
    and sz: "0 \<le> sz"
    and p: "0 \<le> x" "x < sz" "0 \<le> y" "y < sz"
    and rect: "x < lock_x sz \<or> lock_x sz + lock_width sz < x"
    and r: "\<bar>shackle_radius sz\<bar> \<le> R" "\<bar>shackle_radius sz - 2\<bar> \<le> R"
    and seg: "x < shackle_center_x sz - R - max 1 (py_int (scale sz))
              \<or> shackle_center_x sz + R + max 1 (py_int (scale sz)) < x"
  shows "icon_pixel L sz (x, y) = Inr background"
proof -
  have "\<forall>c \<in> set (the_calls sz). \<not> covers L c (x, y)"
  proof
    fix c assume "c \<in> set (the_calls sz)"
    then consider
      (R) "c = Rectangle (lock_x sz) (lock_y sz) (lock_x sz + lock_width sz)
             (lock_y sz + lock_height sz) (255, 255, 255, 255)"
      | (S) a where "c = segment (shackle_center_x sz, shackle_center_y sz) (shackle_radius sz)
             (max 1 (py_int (scale sz))) a"
      unfolding the_calls_def by auto
    then show "\<not> covers L c (x, y)"
    proof cases
      case R
      then show ?thesis using rect by auto
    next
      case S
      show ?thesis
      proof
        assume "covers L c (x, y)"
        then have "shackle_center_x sz - R - max 1 (py_int (scale sz)) \<le> x \<and>
                   x \<le> shackle_center_x sz + R + max 1 (py_int (scale sz))"
          unfolding S using L r by (intro segment_reach) simp_all
        then show False using seg by linarith
      qed
    qed
  qed
  then have "fold (paint L) (the_calls sz) (\<lambda>_. background) (x, y) = background"
    by (simp add: fold_paint_untouched)
  then show ?thesis
    using sz p by (simp add: icon_pixel_eq background_def)
qed

lemma bbox_within_stroke_box: "within_stroke_box bbox_coverage"
  unfolding within_stroke_box_def bbox_coverage_def by auto

lemma geometry_16:
  "lock_x 16 = 5" "lock_width 16 = 6" "shackle_center_x 16 = 8" "shackle_radius 16 = 2"
  "py_int (scale 16) = 0"
  by (simp_all add: lock_x_def lock_width_eq shackle_center_x_def shackle_radius_eq
      stroke_width_eq)

lemma geometry_32:
  "lock_x 32 = 9" "lock_width 32 = 13" "shackle_center_x 32 = 16" "shackle_radius 32 = 5"
  "py_int (scale 32) = 1"
  by (simp_all add: lock_x_def lock_width_eq shackle_center_x_def shackle_radius_eq
      stroke_width_eq)

lemma geometry_48:
  "lock_x 48 = 14" "lock_width 48 = 20" "shackle_center_x 48 = 24" "shackle_radius 48 = 8"
  "py_int (scale 48) = 2"
  by (simp_all add: lock_x_def lock_width_eq shackle_center_x_def shackle_radius_eq
      stroke_width_eq)

lemma geometry_128:
  "lock_x 128 = 37" "lock_width 128 = 53" "shackle_center_x 128 = 64" "shackle_radius 128 = 21"
  "py_int (scale 128) = 5"
  by (simp_all add: lock_x_def lock_width_eq shackle_center_x_def shackle_radius_eq
      stroke_width_eq)

text \<open>
  C4. For every size in 16, 32, 48, 128 the four corner pixels of the icon have the
  background colour \<open>(59, 130, 246, 255)\<close>, for every line rasteriser that keeps a stroke
  within its end points' bounding box enlarged by the stroke width.
\<close>

theorem corners_are_background:
  "within_stroke_box L \<Longrightarrow> sz \<in> {16, 32, 48, 128} \<Longrightarrow>
     icon_pixel L sz (0, 0) = Inr background \<and>
     icon_pixel L sz (sz - 1, 0) = Inr background \<and>
     icon_pixel L sz (0, sz - 1) = Inr background \<and>
     icon_pixel L sz (sz - 1, sz - 1) = Inr background"
proof -
  assume L: "within_stroke_box L" and "sz \<in> {16, 32, 48, 128}"
  then consider "sz = 16" | "sz = 32" | "sz = 48" | "sz = 128" by auto
  then show ?thesis
  proof cases
    case 1
    have "icon_pixel L 16 (x, y) = Inr background"
      if "x = 0 \<or> x = 15" "y = 0 \<or> y = 15" for x y
      using that by (intro untouched_pixel [OF L, where R = 2]) (auto simp: geometry_16)
    then show ?thesis unfolding 1 by simp
  next
    case 2
    have "icon_pixel L 32 (x, y) = Inr background"
      if "x = 0 \<or> x = 31" "y = 0 \<or> y = 31" for x y
      using that by (intro untouched_pixel [OF L, where R = 5]) (auto simp: geometry_32)
    then show ?thesis unfolding 2 by simp
  next
    case 3
    have "icon_pixel L 48 (x, y) = Inr background"
      if "x = 0 \<or> x = 47" "y = 0 \<or> y = 47" for x y
      using that by (intro untouched_pixel [OF L, where R = 8]) (auto simp: geometry_48)
    then show ?thesis unfolding 3 by simp
  next
    case 4
    have "icon_pixel L 128 (x, y) = Inr background"
      if "x = 0 \<or> x = 127" "y = 0 \<or> y = 127" for x y
      using that by (intro untouched_pixel [OF L, where R = 21]) (auto simp: geometry_128)
    then show ?thesis unfolding 4 by simp
  qed
qed

theorem corners_are_background_witness:
  "within_stroke_box bbox_coverage \<and> (16::int) \<in> {16, 32, 48, 128} \<and>
   icon_pixel bbox_coverage 16 (0, 0) = Inr background \<and>
   icon_pixel bbox_coverage 16 (15, 15) = Inr background"
  using corners_are_background [of bbox_coverage 16] bbox_within_stroke_box by simp

lemma create_icon_eq:
  assumes "0 \<le> sz" and "dirname f = [] \<or> dirname f \<in> dirs w"
  shows "create_icon sz f w = Inr (w\<lparr>events := events w @ [Saved f ''PNG'' (the_icon sz)]\<rparr>)"
  using assms by (simp add: create_icon_def create_icon_image_eq save_def the_icon_def)

lemma str_sizes: "str 16 = ''16''" "str 32 = ''32''" "str 48 = ''48''" "str 128 = ''128''"
  by (simp_all add: str_def str_nat.simps)

lemma main_eq:
  "main (start ds) =
     Inr \<lparr>dirs = insert ''extension/icons'' ds,
          events =
            [Saved ''extension/icons/icon16.png'' ''PNG'' (the_icon 16),
             Printed ''Created icon16.png'',
             Saved ''extension/icons/icon32.png'' ''PNG'' (the_icon 32),
             Printed ''Created icon32.png'',
             Saved ''extension/icons/icon48.png'' ''PNG'' (the_icon 48),
             Printed ''Created icon48.png'',
             Saved ''extension/icons/icon128.png'' ''PNG'' (the_icon 128),
             Printed ''Created icon128.png'',
             Printed ''All icons created successfully!'']\<rparr>"
  by (simp add: main_def sizes_def start_def makedirs_def print_def str_sizes create_icon_eq)

text \<open>
  C6. A run writes exactly four files, \<open>extension/icons/icon16.png\<close>, \<open>icon32.png\<close>,
  \<open>icon48.png\<close> and \<open>icon128.png\<close>, each saved as PNG from an RGBA image of exactly
  size by size pixels.
\<close>

theorem four_files_written:
  "\<exists>w'. main (start ds) = Inr w' \<and>
     map (\<lambda>(path, format, img). (path, format, mode img, im_width img, im_height img))
       (written w') =
       [(''extension/icons/icon16.png'', ''PNG'', ''RGBA'', 16, 16),
        (''extension/icons/icon32.png'', ''PNG'', ''RGBA'', 32, 32),
        (''extension/icons/icon48.png'', ''PNG'', ''RGBA'', 48, 48),
        (''extension/icons/icon128.png'', ''PNG'', ''RGBA'', 128, 128)]"
  by (simp add: main_eq written_def the_icon_def)

text \<open>
  C8. The sizes are processed in the order 16, 32, 48, 128; each icon is saved and then its
  line \<open>Created icon{size}.png\<close> is printed before the next icon starts, and the last event is
  the line \<open>All icons created successfully!\<close>; standard output holds exactly these five
  lines in that order.
\<close>

theorem run_order_and_output:
  "\<exists>w'. main (start ds) = Inr w' \<and>
     events w' =
       [Saved ''extension/icons/icon16.png'' ''PNG'' (the_icon 16),
        Printed ''Created icon16.png'',
        Saved ''extension/icons/icon32.png'' ''PNG'' (the_icon 32),
        Printed ''Created icon32.png'',
        Saved ''extension/icons/icon48.png'' ''PNG'' (the_icon 48),
        Printed ''Created icon48.png'',
        Saved ''extension/icons/icon128.png'' ''PNG'' (the_icon 128),
        Printed ''Created icon128.png'',
        Printed ''All icons created successfully!''] \<and>
     stdout w' =
       [''Created icon16.png'', ''Created icon32.png'', ''Created icon48.png'',
        ''Created icon128.png'', ''All icons created successfully!'']"
  by (simp add: main_eq stdout_def)

text \<open>
  C7. At size 1 nothing fails: the scale is \<open>1/24\<close> (about 0.042), the body width and
  height are 0, the inner shackle radius is \<open>-2\<close>, the image is created, the rectangle and
  the 19 lines are drawn, and the image is saved.
\<close>

theorem size_1_completes:
  "scale 1 = 1 / 24 \<and> 41 / 1000 < scale 1 \<and> scale 1 < 43 / 1000 \<and>
   lock_width 1 = 0 \<and> lock_height 1 = 0 \<and> shackle_radius 1 - 2 = - 2 \<and>
   create_icon_image 1 = Inr (the_icon 1) \<and>
   length (calls (the_icon 1)) = 20 \<and>
   create_icon 1 ''extension/icons/icon1.png'' (makedirs ''extension/icons'' w) =
     Inr \<lparr>dirs = insert ''extension/icons'' (dirs w),
          events = events w @ [Saved ''extension/icons/icon1.png'' ''PNG'' (the_icon 1)]\<rparr>"
proof -
  have g: "lock_width 1 = 0" "lock_height 1 = 0" "shackle_radius 1 = 0"
    by (simp_all add: lock_width_eq lock_height_eq shackle_radius_eq)
  have img: "create_icon_image 1 = Inr (the_icon 1)"
    by (simp add: create_icon_image_eq the_icon_def)
  have n: "length (calls (the_icon 1)) = 20"
    by (simp add: the_icon_def the_calls_def)
  have sv: "create_icon 1 ''extension/icons/icon1.png'' (makedirs ''extension/icons'' w) =
     Inr \<lparr>dirs = insert ''extension/icons'' (dirs w),
          events = events w @ [Saved ''extension/icons/icon1.png'' ''PNG'' (the_icon 1)]\<rparr>"
    by (simp add: create_icon_eq makedirs_def)
  show ?thesis
    using g img n sv by (simp add: scale_def)
qed



end
